theory Spec2Isabelle
  imports Main
begin

section \<open>Values of the platform\<close>

text \<open>
  The program is the authentication code of \<^verbatim>\<open>notes/authentication.md\<close>: the class
  \<^verbatim>\<open>User\<close> (user.model.ts), \<^verbatim>\<open>AuthService\<close> (auth.service.ts, in its last version, the
  one of the section on auto-login and auto-logout), \<^verbatim>\<open>AuthInterceptorService\<close> and
  \<^verbatim>\<open>AuthGuard\<close>.

  Times are milliseconds since the epoch, as \<^verbatim>\<open>Date.getTime()\<close> gives them. They are
  modelled as unbounded integers: the rounding of doubles and the range limit of a
  \<^verbatim>\<open>Date\<close> (8.64e15 ms) are outside the model. A JavaScript number is an integer or
  \<^verbatim>\<open>NaN\<close>; a \<^verbatim>\<open>Date\<close> object holds a time value or is an Invalid Date.
\<close>

datatype number = Number int | NaN

datatype date = Date int | InvalidDate

text \<open>
  A property that may hold \<^verbatim>\<open>undefined\<close>, \<^verbatim>\<open>null\<close> or a value. TypeScript's declared
  types are not checked at run time, and the getter of \<^verbatim>\<open>User\<close> tests its date for
  being falsy, so the date field is modelled with the two absent values.
\<close>

datatype 'a nullable = Undefined | Null | Present 'a

fun getTime :: "date \<Rightarrow> number" where
  "getTime (Date t) = Number t"
| "getTime InvalidDate = NaN"

text \<open>
  \<^verbatim>\<open>a > b\<close> on two numbers (two dates are compared through their time values): false
  as soon as one side is \<^verbatim>\<open>NaN\<close>.
\<close>

fun js_gt :: "number \<Rightarrow> number \<Rightarrow> bool" where
  "js_gt (Number a) (Number b) = (b < a)"
| "js_gt _ _ = False"

text \<open>\<^verbatim>\<open>a - b\<close> on two numbers.\<close>

fun js_minus :: "number \<Rightarrow> number \<Rightarrow> number" where
  "js_minus (Number a) (Number b) = Number (a - b)"
| "js_minus _ _ = NaN"

section \<open>user.model.ts\<close>

text \<open>
  \<^verbatim>\<open>
  export class User {
    constructor(
      public email: string,
      public id: string,
      private _token: string,
      private _tokenExpirationDate: Date
    ) {}
    get token() {
      if (!this._tokenExpirationDate || new Date() > this._tokenExpirationDate) {
        return null;
      }
      return this._token;
    }
  }
  \<close>
  The private fields \<^verbatim>\<open>_token\<close> and \<^verbatim>\<open>_tokenExpirationDate\<close> are \<open>p_token\<close> and
  \<open>p_tokenExpirationDate\<close>; \<^verbatim>\<open>id\<close> is \<open>id'\<close>. The getter reads the clock
  (\<^verbatim>\<open>new Date()\<close>): the model takes the time \<open>now\<close> of the read as an argument. Its
  result \<open>None\<close> is \<^verbatim>\<open>null\<close>. A \<^verbatim>\<open>Date\<close> object, valid or not, is truthy, and
  \<^verbatim>\<open>||\<close> evaluates its right side only when the left side is false.
\<close>

record User =
  email :: string
  id' :: string
  p_token :: string
  p_tokenExpirationDate :: "date nullable"

definition token :: "int \<Rightarrow> User \<Rightarrow> string option" where
  "token now u =
     (case p_tokenExpirationDate u of
        Undefined \<Rightarrow> None
      | Null \<Rightarrow> None
      | Present d \<Rightarrow>
          if js_gt (Number now) (getTime d) then None else Some (p_token u))"

section \<open>rxjs: BehaviorSubject\<close>

text \<open>
  Modelled from the spec: the class \<^verbatim>\<open>BehaviorSubject\<close> of RxJS (its \<^verbatim>\<open>next\<close>,
  \<^verbatim>\<open>subscribe\<close> and \<^verbatim>\<open>unsubscribe\<close>) is library code that is not under src/. The
  service only declares \<^verbatim>\<open>user = new BehaviorSubject<User>(null)\<close>. The model follows
  section 4.1 of the spec and the note of the source: the subject holds the current
  value and the list of its observers in the order of their registration; \<^verbatim>\<open>next\<close>
  stores the value, then notifies every observer in that order; \<^verbatim>\<open>subscribe\<close>
  registers the observer and delivers the current value to it at once.

  An observer is known by the number of its subscription, a fresh one at every
  \<^verbatim>\<open>subscribe\<close>; \<open>delivered\<close> is the record of every delivery made so far, oldest
  first, as (subscription, value).
\<close>

record 'a BehaviorSubject =
  current :: 'a
  observers :: "nat list"
  nextId :: nat
  delivered :: "(nat \<times> 'a) list"

definition new_BehaviorSubject :: "'a \<Rightarrow> 'a BehaviorSubject" where
  "new_BehaviorSubject v = \<lparr>current = v, observers = [], nextId = 0, delivered = []\<rparr>"

definition bs_next :: "'a \<Rightarrow> 'a BehaviorSubject \<Rightarrow> 'a BehaviorSubject" where
  "bs_next v b =
     b\<lparr>current := v, delivered := delivered b @ map (\<lambda>i. (i, v)) (observers b)\<rparr>"

definition bs_subscribe :: "'a BehaviorSubject \<Rightarrow> nat \<times> 'a BehaviorSubject" where
  "bs_subscribe b =
     (nextId b,
      b\<lparr>observers := observers b @ [nextId b],
        nextId := Suc (nextId b),
        delivered := delivered b @ [(nextId b, current b)]\<rparr>)"

definition bs_unsubscribe :: "nat \<Rightarrow> 'a BehaviorSubject \<Rightarrow> 'a BehaviorSubject" where
  "bs_unsubscribe i b = b\<lparr>observers := removeAll i (observers b)\<rparr>"

text \<open>What the observer of subscription \<open>i\<close> has received so far, oldest first.\<close>

definition received :: "nat \<Rightarrow> 'a BehaviorSubject \<Rightarrow> 'a list" where
  "received i b = map snd (filter (\<lambda>d. fst d = i) (delivered b))"

text \<open>A history of a subject: any sequence of its three operations.\<close>

datatype 'a bs_op = Next 'a | Subscribe | Unsubscribe nat

fun bs_step :: "'a bs_op \<Rightarrow> 'a BehaviorSubject \<Rightarrow> 'a BehaviorSubject" where
  "bs_step (Next v) b = bs_next v b"
| "bs_step Subscribe b = snd (bs_subscribe b)"
| "bs_step (Unsubscribe i) b = bs_unsubscribe i b"

fun bs_run :: "'a bs_op list \<Rightarrow> 'a BehaviorSubject \<Rightarrow> 'a BehaviorSubject" where
  "bs_run [] b = b"
| "bs_run (x # xs) b = bs_run xs (bs_step x b)"

text \<open>The values a history sets, in order.\<close>

fun nexts :: "'a bs_op list \<Rightarrow> 'a list" where
  "nexts [] = []"
| "nexts (Next v # xs) = v # nexts xs"
| "nexts (_ # xs) = nexts xs"

text \<open>
  Subscription numbers are fresh: every observer and every delivery is older than
  \<open>nextId\<close>, and no observer is registered twice.
\<close>

definition bs_inv :: "'a BehaviorSubject \<Rightarrow> bool" where
  "bs_inv b =
     (list_all (\<lambda>i. i < nextId b) (observers b)
      \<and> list_all (\<lambda>d. fst d < nextId b) (delivered b)
      \<and> distinct (observers b))"

section \<open>The platform of auth.service.ts: storage, JSON, timers\<close>

text \<open>
  \<^verbatim>\<open>localStorage\<close> holds one item, under the key \<^verbatim>\<open>'userData'\<close>, and the program hands
  its text to \<^verbatim>\<open>JSON.parse\<close> and to nothing else. The model identifies a stored text
  with what \<^verbatim>\<open>JSON.parse\<close> makes of it: a text that is not JSON (\<^verbatim>\<open>JSON.parse\<close> throws a
  \<^verbatim>\<open>SyntaxError\<close>), the text \<^verbatim>\<open>null\<close>, or the text of an object of the type that
  \<^verbatim>\<open>autoLogin\<close> declares for it,
  \<^verbatim>\<open>{email: string; id: string; _token: string; _tokenExpirationDate: string}\<close>.
  JSON text of another shape is outside the model. In the same way a string handed to
  \<^verbatim>\<open>new Date(...)\<close> is identified with what the constructor makes of it: the date text
  of a time value, as \<^verbatim>\<open>Date.prototype.toJSON\<close> writes it (\<^verbatim>\<open>toISOString\<close>, which
  \<^verbatim>\<open>new Date\<close> reads back to the same time value), or a string that is no date.
\<close>

datatype exn = SyntaxError

datatype dateText = DateText int | NoDateText

record UserData =
  ud_email :: string
  ud_id :: string
  ud_token :: string
  ud_tokenExpirationDate :: "dateText nullable"

datatype storedText = Malformed | JsonNull | JsonUserData UserData

text \<open>
  \<^verbatim>\<open>JSON.parse(localStorage.getItem('userData'))\<close>: \<^verbatim>\<open>getItem\<close> gives \<^verbatim>\<open>null\<close> for a
  missing key, which \<^verbatim>\<open>JSON.parse\<close> reads as the text \<^verbatim>\<open>null\<close>.
\<close>

definition JSON_parse :: "storedText option \<Rightarrow> exn + UserData option" where
  "JSON_parse item =
     (case item of
        None \<Rightarrow> Inr None
      | Some Malformed \<Rightarrow> Inl SyntaxError
      | Some JsonNull \<Rightarrow> Inr None
      | Some (JsonUserData d) \<Rightarrow> Inr (Some d))"

text \<open>
  \<^verbatim>\<open>new Date(x)\<close> for the value of a property of the parsed object: \<^verbatim>\<open>undefined\<close>
  gives an Invalid Date, \<^verbatim>\<open>null\<close> the epoch.
\<close>

fun new_Date :: "dateText nullable \<Rightarrow> date" where
  "new_Date Undefined = InvalidDate"
| "new_Date Null = Date 0"
| "new_Date (Present (DateText t)) = Date t"
| "new_Date (Present NoDateText) = InvalidDate"

text \<open>
  How \<^verbatim>\<open>JSON.stringify\<close> writes the date of a user: a property that is \<^verbatim>\<open>undefined\<close>
  is left out, an Invalid Date is written as \<^verbatim>\<open>null\<close>. TypeScript's \<^verbatim>\<open>private\<close> is
  gone at run time, so all four fields are written, under their own names.
\<close>

fun date_toJSON :: "date nullable \<Rightarrow> dateText nullable" where
  "date_toJSON Undefined = Undefined"
| "date_toJSON Null = Null"
| "date_toJSON (Present (Date t)) = Present (DateText t)"
| "date_toJSON (Present InvalidDate) = Null"

definition JSON_stringify :: "User \<Rightarrow> storedText" where
  "JSON_stringify u =
     JsonUserData \<lparr>ud_email = email u, ud_id = id' u, ud_token = p_token u,
       ud_tokenExpirationDate = date_toJSON (p_tokenExpirationDate u)\<rparr>"

section \<open>auth.service.ts\<close>

text \<open>
  The state is the service's two fields, \<open>user\<close> and \<open>tokenExpirationTimer\<close>
  (\<open>None\<close> is \<^verbatim>\<open>undefined\<close> or \<^verbatim>\<open>null\<close>), and what it acts on: the live timeouts of
  the platform as (handle, time at which it is due), the next handle \<^verbatim>\<open>setTimeout\<close>
  will return, the stored item, and the calls made to \<^verbatim>\<open>router.navigate\<close>, oldest
  first. Every timeout of this program has the same callback,
  \<^verbatim>\<open>() => { this.logout(); }\<close>, so a timeout is its handle and its due time.
\<close>

record AuthService =
  user :: "User option BehaviorSubject"
  tokenExpirationTimer :: "nat option"
  timers :: "(nat \<times> int) list"
  nextHandle :: nat
  localStorage :: "storedText option"
  navigated :: "string list list"

text \<open>
  The service when the application starts, over what the storage holds. Handles of
  timeouts are positive integers.
\<close>

definition new_AuthService :: "storedText option \<Rightarrow> AuthService" where
  "new_AuthService stored =
     \<lparr>user = new_BehaviorSubject None, tokenExpirationTimer = None, timers = [],
      nextHandle = 1, localStorage = stored, navigated = []\<rparr>"

text \<open>
  \<^verbatim>\<open>setTimeout(f, delay)\<close> called at \<open>now\<close>: a delay that is \<^verbatim>\<open>NaN\<close> or negative
  is 0. (The wrap of a delay beyond 31 bits is outside the model.)
  \<^verbatim>\<open>clearTimeout(h)\<close> removes the timeout of handle \<open>h\<close>, if it is live.
\<close>

fun delay_ms :: "number \<Rightarrow> int" where
  "delay_ms NaN = 0"
| "delay_ms (Number d) = max 0 d"

definition setTimeout :: "int \<Rightarrow> number \<Rightarrow> AuthService \<Rightarrow> nat \<times> AuthService" where
  "setTimeout now delay s =
     (nextHandle s,
      s\<lparr>timers := timers s @ [(nextHandle s, now + delay_ms delay)],
        nextHandle := Suc (nextHandle s)\<rparr>)"

definition clearTimeout :: "nat \<Rightarrow> AuthService \<Rightarrow> AuthService" where
  "clearTimeout h s = s\<lparr>timers := filter (\<lambda>t. fst t \<noteq> h) (timers s)\<rparr>"

text \<open>
  \<^verbatim>\<open>
  autoLogout(expirationDuration: number) {
    this.tokenExpirationTimer = setTimeout(() => {
      this.logout();
    }, expirationDuration);
  }
  \<close>
\<close>

definition autoLogout :: "int \<Rightarrow> number \<Rightarrow> AuthService \<Rightarrow> AuthService" where
  "autoLogout now expirationDuration s =
     (case setTimeout now expirationDuration s of
        (h, s') \<Rightarrow> s'\<lparr>tokenExpirationTimer := Some h\<rparr>)"

text \<open>
  \<^verbatim>\<open>
  logout() {
    this.user.next(null);
    this.router.navigate(['/auth']);
    localStorage.removeItem('userData');
    if (this.tokenExpirationTimer) {
      clearTimeout(this.tokenExpirationTimer);
    }
    this.tokenExpirationTimer = null;
  }
  \<close>
  A handle is truthy when it is not 0.
\<close>

definition logout :: "AuthService \<Rightarrow> AuthService" where
  "logout s =
     (let s1 = s\<lparr>user := bs_next None (user s)\<rparr>;
          s2 = s1\<lparr>navigated := navigated s1 @ [[''/auth'']]\<rparr>;
          s3 = s2\<lparr>localStorage := None\<rparr>;
          s4 = (case tokenExpirationTimer s3 of
                  None \<Rightarrow> s3
                | Some h \<Rightarrow> if h \<noteq> 0 then clearTimeout h s3 else s3)
      in s4\<lparr>tokenExpirationTimer := None\<rparr>)"

text \<open>
  \<^verbatim>\<open>
  private handleAuthentication(email: string, userId: string, token: string,
                               expiresIn: number) {
    const expirationDate = new Date(new Date().getTime() + expiresIn * 1000);
    const user = new User(email, userId, token, expirationDate);
    this.user.next(user);
    this.autoLogout(expiresIn * 1000);
    localStorage.setItem('userData', JSON.stringify(user));
  }
  \<close>
  \<open>now\<close> is the time of the call; \<open>expiresIn\<close> is in seconds.
\<close>

definition handleAuthentication ::
  "string \<Rightarrow> string \<Rightarrow> string \<Rightarrow> int \<Rightarrow> int \<Rightarrow> AuthService \<Rightarrow> AuthService" where
  "handleAuthentication mail userId tok expiresIn now s =
     (let expirationDate = Date (now + expiresIn * 1000);
          u = \<lparr>email = mail, id' = userId, p_token = tok,
               p_tokenExpirationDate = Present expirationDate\<rparr>;
          s1 = s\<lparr>user := bs_next (Some u) (user s)\<rparr>;
          s2 = autoLogout now (Number (expiresIn * 1000)) s1
      in s2\<lparr>localStorage := Some (JSON_stringify u)\<rparr>)"

text \<open>
  \<^verbatim>\<open>
  autoLogin() {
    const userData: {...} = JSON.parse(localStorage.getItem('userData'));
    if (!userData) {
      return;
    }
    const loadedUser = new User(
      userData.email, userData.id, userData._token,
      new Date(userData._tokenExpirationDate)
    );
    if (loadedUser.token) {
      this.user.next(loadedUser);
      const expirationDuration =
        new Date(userData._tokenExpirationDate).getTime() - new Date().getTime();
      this.autoLogout(expirationDuration);
    }
  }
  \<close>
  The exception of \<^verbatim>\<open>JSON.parse\<close> is not caught: it leaves \<^verbatim>\<open>autoLogin\<close>
  (\<open>Inl\<close>). \<^verbatim>\<open>if (loadedUser.token)\<close> tests the token for being truthy: \<^verbatim>\<open>null\<close> and
  the empty string are not.
\<close>

definition loadedUser :: "UserData \<Rightarrow> User" where
  "loadedUser userData =
     \<lparr>email = ud_email userData, id' = ud_id userData, p_token = ud_token userData,
      p_tokenExpirationDate = Present (new_Date (ud_tokenExpirationDate userData))\<rparr>"

definition truthy :: "string option \<Rightarrow> bool" where
  "truthy v = (case v of None \<Rightarrow> False | Some t \<Rightarrow> t \<noteq> [])"

definition autoLogin :: "int \<Rightarrow> AuthService \<Rightarrow> exn + AuthService" where
  "autoLogin now s =
     (case JSON_parse (localStorage s) of
        Inl e \<Rightarrow> Inl e
      | Inr None \<Rightarrow> Inr s
      | Inr (Some userData) \<Rightarrow>
          if truthy (token now (loadedUser userData)) then
            (let s1 = s\<lparr>user := bs_next (Some (loadedUser userData)) (user s)\<rparr>;
                 expirationDuration =
                   js_minus (getTime (new_Date (ud_tokenExpirationDate userData)))
                     (Number now)
             in Inr (autoLogout now expirationDuration s1))
          else Inr s)"

text \<open>
  The platform runs the callback of a live timeout once its due time has come: the
  timeout is no longer live, and the callback calls \<^verbatim>\<open>logout\<close>. A handle that is not
  live, or not yet due, does nothing. \<open>now\<close> is the time at which the callback runs:
  at the due time or later, never before (a page that is throttled or a machine that
  was suspended runs it late), so a timeout can still be live after its due time.
\<close>

definition timerFires :: "nat \<Rightarrow> int \<Rightarrow> AuthService \<Rightarrow> AuthService" where
  "timerFires h now s =
     (if list_ex (\<lambda>t. fst t = h \<and> snd t \<le> now) (timers s)
      then logout (clearTimeout h s)
      else s)"

text \<open>
  An execution: the calls that reach the service, each at its time. A successful
  answer of the sign-up or login request, \<^verbatim>\<open>resData\<close>, calls
  \<^verbatim>\<open>handleAuthentication(resData.email, resData.localId, resData.idToken,
  +resData.expiresIn)\<close>.
\<close>

datatype event =
    Authenticated string string string int int
  | AutoLogin int
  | Logout
  | TimerFires nat int

fun step :: "event \<Rightarrow> AuthService \<Rightarrow> exn + AuthService" where
  "step (Authenticated mail userId tok expiresIn now) s =
     Inr (handleAuthentication mail userId tok expiresIn now s)"
| "step (AutoLogin now) s = autoLogin now s"
| "step Logout s = Inr (logout s)"
| "step (TimerFires h now) s = Inr (timerFires h now s)"

fun run :: "event list \<Rightarrow> AuthService \<Rightarrow> exn + AuthService" where
  "run [] s = Inr s"
| "run (e # es) s = (case step e s of Inl x \<Rightarrow> Inl x | Inr s' \<Rightarrow> run es s')"

section \<open>auth-interceptor.service.ts\<close>

text \<open>
  \<^verbatim>\<open>
  intercept(req: HttpRequest<any>, next: HttpHandler) {
    return this.authService.user.pipe(
      take(1),
      exhaustMap(user => {
        if (!user) {
          return next.handle(req);
        }
        const modifiedReq = req.clone({
          params: new HttpParams().set('auth', user.token)
        });
        return next.handle(modifiedReq);
      })
    );
  }
  \<close>
  \<^verbatim>\<open>take(1)\<close> on the subject subscribes, receives the current value at once and
  unsubscribes: one read of \<open>current\<close>. Requests are objects: the model keeps
  them in a heap, a request being known by its address, so that what happens to the
  original can be told from what happens to its clone. \<^verbatim>\<open>req.clone(update)\<close>
  allocates a new request, equal to the one of \<open>req\<close> but for its \<open>params\<close>.
  The result of \<^verbatim>\<open>intercept\<close> is the address handed to \<^verbatim>\<open>next.handle\<close> and the heap
  after the call (\<open>None\<close> if \<^verbatim>\<open>clone\<close> is called on an address that is not of the
  heap, which a reference never is). The value of a parameter may be \<^verbatim>\<open>null\<close>.
\<close>

record HttpRequest =
  http_method :: string
  url :: string
  params :: "(string \<times> string option) list"

type_synonym heap = "HttpRequest list"

definition clone ::
  "heap \<Rightarrow> nat \<Rightarrow> (string \<times> string option) list \<Rightarrow> (nat \<times> heap) option" where
  "clone h req ps =
     (if req < length h then Some (length h, h @ [(h ! req)\<lparr>params := ps\<rparr>]) else None)"

definition intercept :: "AuthService \<Rightarrow> int \<Rightarrow> heap \<Rightarrow> nat \<Rightarrow> (nat \<times> heap) option" where
  "intercept s now h req =
     (case current (user s) of
        None \<Rightarrow> Some (req, h)
      | Some u \<Rightarrow> clone h req [(''auth'', token now u)])"

section \<open>auth.guard.ts\<close>

text \<open>
  \<^verbatim>\<open>
  canActivate(route, router): boolean | UrlTree | ... {
    return this.authService.user.pipe(
      take(1),
      map(user => {
        const isAuth = !!user;
        if (isAuth) {
          return true;
        }
        return this.router.createUrlTree(['/auth']);
      })
    );
  }
  \<close>
  The result is a boolean or the \<^verbatim>\<open>UrlTree\<close> of the commands given to
  \<^verbatim>\<open>createUrlTree\<close>.
\<close>

datatype guardResult = Boolean bool | UrlTree "string list"

definition canActivate :: "AuthService \<Rightarrow> guardResult" where
  "canActivate s =
     (let isAuth = (current (user s) \<noteq> None)
      in if isAuth then Boolean True else UrlTree [''/auth''])"

section \<open>Properties of the BehaviorSubject\<close>

lemma bs_inv_new: "bs_inv (new_BehaviorSubject v)"
  by (simp add: bs_inv_def new_BehaviorSubject_def)

lemma bs_inv_step: "bs_inv b \<Longrightarrow> bs_inv (bs_step x b)"
proof (cases x)
  case (Next v)
  then show "bs_inv b \<Longrightarrow> bs_inv (bs_step x b)"
    by (auto simp: bs_inv_def bs_next_def list_all_iff)
next
  case Subscribe
  then show "bs_inv b \<Longrightarrow> bs_inv (bs_step x b)"
    by (auto simp: bs_inv_def bs_subscribe_def list_all_iff less_Suc_eq)
next
  case (Unsubscribe i)
  then show "bs_inv b \<Longrightarrow> bs_inv (bs_step x b)"
    by (auto simp: bs_inv_def bs_unsubscribe_def list_all_iff distinct_removeAll)
qed

lemma bs_inv_run: "bs_inv b \<Longrightarrow> bs_inv (bs_run xs b)"
  by (induction xs arbitrary: b) (simp_all add: bs_inv_step)

lemma bs_run_append: "bs_run (xs @ ys) b = bs_run ys (bs_run xs b)"
  by (induction xs arbitrary: b) simp_all

lemma current_run_no_next: "nexts xs = [] \<Longrightarrow> current (bs_run xs b) = current b"
proof (induction xs arbitrary: b)
  case Nil
  show ?case by simp
next
  case (Cons x xs)
  then show ?case
    by (cases x) (simp_all add: bs_subscribe_def bs_unsubscribe_def)
qed

lemma received_fresh: "bs_inv b \<Longrightarrow> received (nextId b) b = []"
  by (auto simp: bs_inv_def received_def list_all_iff filter_empty_conv)

lemma received_subscribe:
  "bs_inv b \<Longrightarrow> received (nextId b) (snd (bs_subscribe b)) = [current b]"
  using received_fresh [of b] by (simp add: received_def bs_subscribe_def)

lemma filter_notify:
  "distinct xs \<Longrightarrow> i \<in> set xs \<Longrightarrow>
     filter (\<lambda>d. fst d = i) (map (\<lambda>j. (j, w)) xs) = [(i, w)]"
  by (induction xs) (auto simp: filter_empty_conv)

lemma filter_notify_other:
  "i \<notin> set xs \<Longrightarrow> filter (\<lambda>d. fst d = i) (map (\<lambda>j. (j, w)) xs) = []"
  by (induction xs) auto

lemma observers_run:
  "i \<in> set (observers b) \<Longrightarrow> Unsubscribe i \<notin> set xs \<Longrightarrow>
     i \<in> set (observers (bs_run xs b))"
proof (induction xs arbitrary: b)
  case Nil
  then show ?case by simp
next
  case (Cons x xs)
  have "i \<in> set (observers (bs_step x b))"
    using Cons.prems by (cases x) (auto simp: bs_next_def bs_subscribe_def bs_unsubscribe_def)
  then show ?case using Cons.IH Cons.prems(2) by simp
qed

text \<open>
  A registered observer receives, over any history that does not unsubscribe it, exactly
  the values the history sets, in order.
\<close>

lemma received_run_subscribed:
  "bs_inv b \<Longrightarrow> i \<in> set (observers b) \<Longrightarrow> Unsubscribe i \<notin> set xs \<Longrightarrow>
     received i (bs_run xs b) = received i b @ nexts xs"
proof (induction xs arbitrary: b)
  case Nil
  show ?case by simp
next
  case (Cons x xs)
  have inv': "bs_inv (bs_step x b)" using Cons.prems(1) by (rule bs_inv_step)
  have rest: "Unsubscribe i \<notin> set xs" using Cons.prems(3) by simp
  show ?case
  proof (cases x)
    case (Next w)
    have "i \<in> set (observers (bs_step x b))"
      using Next Cons.prems(2) by (simp add: bs_next_def)
    from Cons.IH [OF inv' this rest]
    show ?thesis using Next Cons.prems(1,2)
      by (simp add: received_def bs_next_def bs_inv_def filter_notify)
  next
    case Subscribe
    have lt: "i < nextId b"
      using Cons.prems(1,2) by (auto simp: bs_inv_def list_all_iff)
    have "i \<in> set (observers (bs_step x b))"
      using Subscribe Cons.prems(2) by (simp add: bs_subscribe_def)
    from Cons.IH [OF inv' this rest]
    show ?thesis using Subscribe lt
      by (simp add: received_def bs_subscribe_def)
  next
    case (Unsubscribe j)
    have "j \<noteq> i" using Unsubscribe Cons.prems(3) by auto
    then have "i \<in> set (observers (bs_step x b))"
      using Unsubscribe Cons.prems(2) by (simp add: bs_unsubscribe_def)
    from Cons.IH [OF inv' this rest]
    show ?thesis using Unsubscribe
      by (simp add: received_def bs_unsubscribe_def)
  qed
qed

text \<open>An observer that has unsubscribed receives nothing more.\<close>

lemma received_run_unsubscribed:
  "bs_inv b \<Longrightarrow> i \<notin> set (observers b) \<Longrightarrow> i < nextId b \<Longrightarrow>
     received i (bs_run xs b) = received i b"
proof (induction xs arbitrary: b)
  case Nil
  show ?case by simp
next
  case (Cons x xs)
  have inv': "bs_inv (bs_step x b)" using Cons.prems(1) by (rule bs_inv_step)
  show ?case
  proof (cases x)
    case (Next w)
    have a: "i \<notin> set (observers (bs_step x b))" and b: "i < nextId (bs_step x b)"
      using Next Cons.prems(2,3) by (simp_all add: bs_next_def)
    from Cons.IH [OF inv' a b]
    show ?thesis using Next Cons.prems(2)
      by (simp add: received_def bs_next_def filter_notify_other)
  next
    case Subscribe
    have a: "i \<notin> set (observers (bs_step x b))" and b: "i < nextId (bs_step x b)"
      using Subscribe Cons.prems(2,3) by (simp_all add: bs_subscribe_def)
    from Cons.IH [OF inv' a b]
    show ?thesis using Subscribe Cons.prems(3)
      by (simp add: received_def bs_subscribe_def)
  next
    case (Unsubscribe j)
    have a: "i \<notin> set (observers (bs_step x b))" and b: "i < nextId (bs_step x b)"
      using Unsubscribe Cons.prems(2,3) by (simp_all add: bs_unsubscribe_def)
    from Cons.IH [OF inv' a b]
    show ?thesis using Unsubscribe
      by (simp add: received_def bs_unsubscribe_def)
  qed
qed

text \<open>
  C8: in any history of the subject, once \<open>v\<close> has been set and no other value after
  it, an observer that subscribes receives \<open>v\<close> at once, and nothing else; from then
  on it receives every value that is set, in order, as long as it is not unsubscribed;
  once unsubscribed it receives nothing more.
\<close>

theorem replay_to_late_joiner:
  assumes b1: "b1 = bs_run (xs0 @ [Next v] @ xs1) (new_BehaviorSubject v0)"
    and quiet: "nexts xs1 = []"
    and sub: "bs_subscribe b1 = (i, b2)"
    and stay: "Unsubscribe i \<notin> set xs2"
  shows "received i b2 = [v]
       \<and> received i (bs_run xs2 b2) = v # nexts xs2
       \<and> received i (bs_run xs3 (bs_unsubscribe i (bs_run xs2 b2))) = v # nexts xs2"
proof -
  have inv1: "bs_inv b1" unfolding b1 by (intro bs_inv_run bs_inv_new)
  have cur: "current b1 = v"
    unfolding b1 using quiet by (simp add: bs_run_append current_run_no_next bs_next_def)
  have i: "i = nextId b1" and b2: "b2 = snd (bs_subscribe b1)"
    using sub by (auto simp: bs_subscribe_def)
  have first: "received i b2 = [v]"
    using received_subscribe [OF inv1] cur i b2 by simp
  have inv2: "bs_inv b2"
    using bs_inv_step [OF inv1, of Subscribe] b2 by simp
  have mem: "i \<in> set (observers b2)"
    using i b2 by (simp add: bs_subscribe_def)
  have later: "received i (bs_run xs2 b2) = v # nexts xs2"
    using received_run_subscribed [OF inv2 mem stay] first by simp
  let ?b3 = "bs_run xs2 b2"
  have inv3: "bs_inv ?b3" using inv2 by (rule bs_inv_run)
  have mem3: "i \<in> set (observers ?b3)" using mem stay by (rule observers_run)
  have inv4: "bs_inv (bs_unsubscribe i ?b3)"
    using bs_inv_step [OF inv3, of "Unsubscribe i"] by simp
  have gone: "i \<notin> set (observers (bs_unsubscribe i ?b3))"
    by (simp add: bs_unsubscribe_def)
  have old: "i < nextId (bs_unsubscribe i ?b3)"
    using inv3 mem3 by (auto simp: bs_inv_def list_all_iff bs_unsubscribe_def)
  have "received i (bs_run xs3 (bs_unsubscribe i ?b3)) = received i (bs_unsubscribe i ?b3)"
    using inv4 gone old by (rule received_run_unsubscribed)
  also have "\<dots> = received i ?b3" by (simp add: received_def bs_unsubscribe_def)
  finally have after: "received i (bs_run xs3 (bs_unsubscribe i ?b3)) = v # nexts xs2"
    using later by simp
  show ?thesis using first later after by simp
qed

text \<open>
  An instance: an earlier observer subscribes and leaves, 5 is set in between; the late
  joiner is subscription 1.
\<close>

theorem replay_to_late_joiner_witness:
  "received 1 (snd (bs_subscribe (bs_run ([Subscribe] @ [Next (5::nat)] @ [Unsubscribe 0])
       (new_BehaviorSubject 0)))) = [5]
   \<and> received 1 (bs_run [Next 6, Subscribe, Next 7]
        (snd (bs_subscribe (bs_run ([Subscribe] @ [Next (5::nat)] @ [Unsubscribe 0])
       (new_BehaviorSubject 0))))) = [5, 6, 7]
   \<and> received 1 (bs_run [Next 8] (bs_unsubscribe 1 (bs_run [Next 6, Subscribe, Next 7]
        (snd (bs_subscribe (bs_run ([Subscribe] @ [Next (5::nat)] @ [Unsubscribe 0])
       (new_BehaviorSubject 0))))))) = [5, 6, 7]"
proof -
  let ?b1 = "bs_run ([Subscribe] @ [Next (5::nat)] @ [Unsubscribe 0]) (new_BehaviorSubject 0)"
  have quiet: "nexts [Unsubscribe 0 :: nat bs_op] = []" by simp
  have sub: "bs_subscribe ?b1 = (1, snd (bs_subscribe ?b1))"
    by (simp add: bs_subscribe_def bs_next_def bs_unsubscribe_def new_BehaviorSubject_def)
  have stay: "Unsubscribe 1 \<notin> set [Next (6::nat), Subscribe, Next 7]" by simp
  from replay_to_late_joiner [OF refl quiet sub stay, of "[Next 8]"]
  show ?thesis by simp
qed

section \<open>Properties of the token getter\<close>

text \<open>
  C1, as stated: the credential is valid exactly when \<open>t < expiresAt\<close>, so at
  \<open>t = expiresAt\<close> the getter yields \<^verbatim>\<open>null\<close>. The getter compares with
  \<^verbatim>\<open>new Date() > this._tokenExpirationDate\<close>: at the instant of expiry the token is
  still returned. Here the user expires at 1000 and is asked at 1000.
\<close>

theorem token_at_expiry_counterexample:
  "token 1000 \<lparr>email = ''a@b.c'', id' = ''u1'', p_token = ''tok'',
       p_tokenExpirationDate = Present (Date 1000)\<rparr> = Some ''tok''
   \<and> \<not> ((1000::int) < 1000)"
  by (simp add: token_def)

text \<open>
  C1, amended: for a user whose expiration date is a valid date \<open>e\<close>, the getter returns
  the token exactly when \<open>t \<le> e\<close> and \<^verbatim>\<open>null\<close> exactly when \<open>e < t\<close>: the
  instant \<open>e\<close> itself still counts as valid.
\<close>

theorem token_valid_iff:
  assumes "p_tokenExpirationDate u = Present (Date e)"
  shows "(token t u = Some (p_token u)) = (t \<le> e) \<and> (token t u = None) = (e < t)"
  using assms by (auto simp: token_def)

theorem token_valid_iff_witness:
  "(token 1000 \<lparr>email = ''a@b.c'', id' = ''u1'', p_token = ''tok'',
        p_tokenExpirationDate = Present (Date 1000)\<rparr> = Some ''tok'') = ((1000::int) \<le> 1000)
   \<and> (token 1001 \<lparr>email = ''a@b.c'', id' = ''u1'', p_token = ''tok'',
        p_tokenExpirationDate = Present (Date 1000)\<rparr> = None) = ((1000::int) < 1001)"
  using token_valid_iff [of "\<lparr>email = ''a@b.c'', id' = ''u1'', p_token = ''tok'',
        p_tokenExpirationDate = Present (Date 1000)\<rparr>" 1000 1000]
    token_valid_iff [of "\<lparr>email = ''a@b.c'', id' = ''u1'', p_token = ''tok'',
        p_tokenExpirationDate = Present (Date 1000)\<rparr>" 1000 1001]
  by simp

text \<open>
  C10: a user whose expiration date is absent (\<^verbatim>\<open>null\<close> or \<^verbatim>\<open>undefined\<close>) has the
  token \<^verbatim>\<open>null\<close> at every time of the clock, and the getter returns a token only
  through the comparison, which is reached only for a user whose expiration date is
  present.
\<close>

theorem token_absent_date:
  "(p_tokenExpirationDate u = Undefined \<or> p_tokenExpirationDate u = Null
      \<longrightarrow> (\<forall>now. token now u = None))
   \<and> (token t u \<noteq> None
      \<longrightarrow> (\<exists>d. p_tokenExpirationDate u = Present d \<and> \<not> js_gt (Number t) (getTime d)))"
  by (auto simp: token_def split: nullable.splits)

theorem token_absent_date_witness:
  "token 5 \<lparr>email = ''a@b.c'', id' = ''u1'', p_token = ''tok'',
       p_tokenExpirationDate = Null\<rparr> = None
   \<and> token 5 \<lparr>email = ''a@b.c'', id' = ''u1'', p_token = ''tok'',
       p_tokenExpirationDate = Undefined\<rparr> = None
   \<and> token 5 \<lparr>email = ''a@b.c'', id' = ''u1'', p_token = ''tok'',
       p_tokenExpirationDate = Present (Date 9)\<rparr> \<noteq> None
   \<and> \<not> js_gt (Number 5) (getTime (Date 9))"
  using token_absent_date [of "\<lparr>email = ''a@b.c'', id' = ''u1'', p_token = ''tok'',
       p_tokenExpirationDate = Null\<rparr>" 5]
    token_absent_date [of "\<lparr>email = ''a@b.c'', id' = ''u1'', p_token = ''tok'',
       p_tokenExpirationDate = Undefined\<rparr>" 5]
    token_absent_date [of "\<lparr>email = ''a@b.c'', id' = ''u1'', p_token = ''tok'',
       p_tokenExpirationDate = Present (Date 9)\<rparr>" 5]
  by (simp add: token_def)

section \<open>Properties of the service\<close>

subsection \<open>The expiry timer\<close>

text \<open>
  What \<^verbatim>\<open>handleAuthentication\<close> does to the timeouts: it adds one, due at the
  expiration date of the new user (for a lifetime that is not negative), and holds its
  handle. Every timeout that was live stays live.
\<close>

theorem handleAuthentication_schedules:
  "timers (handleAuthentication mail userId tok expiresIn now s)
     = timers s @ [(nextHandle s, now + max 0 (expiresIn * 1000))]
   \<and> tokenExpirationTimer (handleAuthentication mail userId tok expiresIn now s)
     = Some (nextHandle s)"
  by (simp add: handleAuthentication_def autoLogout_def setTimeout_def Let_def)

text \<open>
  C2, on the code: a login at time 0 (lifetime 3600 s) and a second login at 3000000,
  with no logout in between. \<^verbatim>\<open>autoLogout\<close> overwrites the handle it holds and never
  calls \<^verbatim>\<open>clearTimeout\<close>: after the second login two timeouts are live, and the service
  only knows the second. When the first falls due, at 3600000, it logs out the second
  session, whose token is valid until 6600000.
\<close>

theorem second_login_keeps_first_timer:
  "run [Authenticated ''a@b.c'' ''u1'' ''tok1'' 3600 0,
        Authenticated ''a@b.c'' ''u1'' ''tok2'' 3600 3000000] (new_AuthService None)
   = Inr \<lparr>user = \<lparr>current = Some \<lparr>email = ''a@b.c'', id' = ''u1'', p_token = ''tok2'',
                     p_tokenExpirationDate = Present (Date 6600000)\<rparr>,
                   observers = [], nextId = 0, delivered = []\<rparr>,
          tokenExpirationTimer = Some 2,
          timers = [(1, 3600000), (2, 6600000)],
          nextHandle = 3,
          localStorage = Some (JsonUserData \<lparr>ud_email = ''a@b.c'', ud_id = ''u1'',
             ud_token = ''tok2'', ud_tokenExpirationDate = Present (DateText 6600000)\<rparr>),
          navigated = []\<rparr>
   \<and> token 3600000 \<lparr>email = ''a@b.c'', id' = ''u1'', p_token = ''tok2'',
                     p_tokenExpirationDate = Present (Date 6600000)\<rparr> = Some ''tok2''
   \<and> run [Authenticated ''a@b.c'' ''u1'' ''tok1'' 3600 0,
        Authenticated ''a@b.c'' ''u1'' ''tok2'' 3600 3000000,
        TimerFires 1 3600000] (new_AuthService None)
   = Inr \<lparr>user = \<lparr>current = None, observers = [], nextId = 0, delivered = []\<rparr>,
          tokenExpirationTimer = None,
          timers = [],
          nextHandle = 3,
          localStorage = None,
          navigated = [[''/auth'']]\<rparr>"
  by (simp add: handleAuthentication_def autoLogout_def setTimeout_def JSON_stringify_def
      Let_def bs_next_def new_AuthService_def new_BehaviorSubject_def logout_def
      clearTimeout_def timerFires_def token_def)

text \<open>
  When the only live timeouts are the one the service holds, \<^verbatim>\<open>logout\<close> leaves none
  live, and a timeout falling due afterwards does nothing.
\<close>

theorem logout_cancels_held_timer:
  assumes "tokenExpirationTimer s = Some h" and "h \<noteq> 0"
    and "list_all (\<lambda>t. fst t = h) (timers s)"
  shows "timers (logout s) = [] \<and> timerFires h' t (logout s) = logout s"
proof -
  have "filter (\<lambda>t. fst t \<noteq> h) (timers s) = []"
    using assms(3) by (simp add: filter_empty_conv list_all_iff)
  then have none: "timers (logout s) = []"
    using assms(1,2) by (simp add: logout_def clearTimeout_def Let_def)
  then show ?thesis by (simp add: timerFires_def)
qed

theorem logout_cancels_held_timer_witness:
  "timers (logout (handleAuthentication ''a@b.c'' ''u1'' ''tok'' 3600 0 (new_AuthService None)))
     = []
   \<and> timerFires 1 3600000
        (logout (handleAuthentication ''a@b.c'' ''u1'' ''tok'' 3600 0 (new_AuthService None)))
      = logout (handleAuthentication ''a@b.c'' ''u1'' ''tok'' 3600 0 (new_AuthService None))"
proof -
  let ?s = "handleAuthentication ''a@b.c'' ''u1'' ''tok'' 3600 0 (new_AuthService None)"
  have held: "tokenExpirationTimer ?s = Some 1"
    by (simp add: handleAuthentication_def autoLogout_def setTimeout_def Let_def
        new_AuthService_def)
  have pos: "(1::nat) \<noteq> 0" by simp
  have only: "list_all (\<lambda>t. fst t = 1) (timers ?s)"
    by (simp add: handleAuthentication_def autoLogout_def setTimeout_def Let_def
        new_AuthService_def)
  show ?thesis using logout_cancels_held_timer [OF held pos only] .
qed

text \<open>
  C7, on the code: the application starts over a stored user that expires at 3600000;
  \<^verbatim>\<open>autoLogin\<close> at 1000000 schedules timeout 1. The user logs in again at 3000000
  (timeout 2), then logs out. \<^verbatim>\<open>logout\<close> clears timeout 2, the one the service holds;
  timeout 1 is still live (first equation). When it falls due, its callback calls
  \<^verbatim>\<open>logout\<close> a second time: a second navigation to \<^verbatim>\<open>/auth\<close> (second equation).
\<close>

theorem logout_then_stale_timer_fires:
  "run [AutoLogin 1000000,
        Authenticated ''a@b.c'' ''u1'' ''tok2'' 3600 3000000,
        Logout]
       (new_AuthService (Some (JsonUserData \<lparr>ud_email = ''a@b.c'', ud_id = ''u1'',
          ud_token = ''tok1'', ud_tokenExpirationDate = Present (DateText 3600000)\<rparr>)))
   = Inr \<lparr>user = \<lparr>current = None, observers = [], nextId = 0, delivered = []\<rparr>,
          tokenExpirationTimer = None,
          timers = [(1, 3600000)],
          nextHandle = 3,
          localStorage = None,
          navigated = [[''/auth'']]\<rparr>
  \<and> run [AutoLogin 1000000,
        Authenticated ''a@b.c'' ''u1'' ''tok2'' 3600 3000000,
        Logout,
        TimerFires 1 3600000]
       (new_AuthService (Some (JsonUserData \<lparr>ud_email = ''a@b.c'', ud_id = ''u1'',
          ud_token = ''tok1'', ud_tokenExpirationDate = Present (DateText 3600000)\<rparr>)))
   = Inr \<lparr>user = \<lparr>current = None, observers = [], nextId = 0, delivered = []\<rparr>,
          tokenExpirationTimer = None,
          timers = [],
          nextHandle = 3,
          localStorage = None,
          navigated = [[''/auth''], [''/auth'']]\<rparr>"
  by (simp add: handleAuthentication_def autoLogout_def setTimeout_def JSON_stringify_def
      Let_def bs_next_def new_AuthService_def new_BehaviorSubject_def logout_def
      clearTimeout_def timerFires_def autoLogin_def JSON_parse_def loadedUser_def
      token_def truthy_def)

subsection \<open>Loading the stored user\<close>

text \<open>
  C3, as stated: with a stored user whose expiration date is in the past,
  \<^verbatim>\<open>autoLogin\<close> clears the stored item. \<^verbatim>\<open>autoLogin\<close> has no branch for a token that
  is not valid: it returns, and the item stays. Here the stored user expired at 5 and
  the application starts at 10.
\<close>

theorem autoLogin_expired_counterexample:
  "autoLogin 10 (new_AuthService (Some (JsonUserData
       \<lparr>ud_email = ''a@b.c'', ud_id = ''u1'', ud_token = ''tok'',
        ud_tokenExpirationDate = Present (DateText 5)\<rparr>)))
   = Inr \<lparr>user = \<lparr>current = None, observers = [], nextId = 0, delivered = []\<rparr>,
          tokenExpirationTimer = None, timers = [], nextHandle = 1,
          localStorage = Some (JsonUserData
            \<lparr>ud_email = ''a@b.c'', ud_id = ''u1'', ud_token = ''tok'',
             ud_tokenExpirationDate = Present (DateText 5)\<rparr>),
          navigated = []\<rparr>"
  by (simp add: autoLogin_def new_AuthService_def JSON_parse_def loadedUser_def token_def
      truthy_def new_BehaviorSubject_def)

text \<open>
  C3, amended: with a stored user whose expiration date is in the past, \<^verbatim>\<open>autoLogin\<close>
  returns and changes nothing: no user is emitted (the session stays as it was, empty
  when the application starts), no timeout is scheduled, and the stored item is left in
  place.
\<close>

theorem autoLogin_expired:
  assumes "localStorage s = Some (JsonUserData d)"
    and "ud_tokenExpirationDate d = Present (DateText e)"
    and "e < now"
  shows "autoLogin now s = Inr s"
  using assms by (simp add: autoLogin_def JSON_parse_def loadedUser_def token_def truthy_def)

theorem autoLogin_expired_witness:
  "autoLogin 10 (new_AuthService (Some (JsonUserData
       \<lparr>ud_email = ''a@b.c'', ud_id = ''u1'', ud_token = ''tok'',
        ud_tokenExpirationDate = Present (DateText 5)\<rparr>)))
   = Inr (new_AuthService (Some (JsonUserData
       \<lparr>ud_email = ''a@b.c'', ud_id = ''u1'', ud_token = ''tok'',
        ud_tokenExpirationDate = Present (DateText 5)\<rparr>)))"
proof -
  let ?d = "\<lparr>ud_email = ''a@b.c'', ud_id = ''u1'', ud_token = ''tok'',
        ud_tokenExpirationDate = Present (DateText 5)\<rparr>"
  have stored: "localStorage (new_AuthService (Some (JsonUserData ?d))) = Some (JsonUserData ?d)"
    by (simp add: new_AuthService_def)
  have date: "ud_tokenExpirationDate ?d = Present (DateText 5)" by simp
  have past: "(5::int) < 10" by simp
  show ?thesis using autoLogin_expired [OF stored date past] .
qed

text \<open>
  With a stored user that is still valid and has a token that is not empty,
  \<^verbatim>\<open>autoLogin\<close> emits the loaded user and schedules the logout for the time that is
  left: the timeout is due at the stored expiration date.
\<close>

theorem autoLogin_valid:
  assumes "localStorage s = Some (JsonUserData d)"
    and "ud_tokenExpirationDate d = Present (DateText e)"
    and "now \<le> e" and "ud_token d \<noteq> []"
  shows "autoLogin now s =
     Inr (s\<lparr>user := bs_next (Some (loadedUser d)) (user s),
            timers := timers s @ [(nextHandle s, e)],
            nextHandle := Suc (nextHandle s),
            tokenExpirationTimer := Some (nextHandle s)\<rparr>)"
  using assms
  by (simp add: autoLogin_def JSON_parse_def loadedUser_def token_def truthy_def Let_def
      autoLogout_def setTimeout_def)

theorem autoLogin_valid_witness:
  "autoLogin 10 (new_AuthService (Some (JsonUserData
       \<lparr>ud_email = ''a@b.c'', ud_id = ''u1'', ud_token = ''tok'',
        ud_tokenExpirationDate = Present (DateText 50)\<rparr>)))
   = Inr \<lparr>user = \<lparr>current = Some \<lparr>email = ''a@b.c'', id' = ''u1'', p_token = ''tok'',
                     p_tokenExpirationDate = Present (Date 50)\<rparr>,
                   observers = [], nextId = 0, delivered = []\<rparr>,
          tokenExpirationTimer = Some 1, timers = [(1, 50)], nextHandle = 2,
          localStorage = Some (JsonUserData
            \<lparr>ud_email = ''a@b.c'', ud_id = ''u1'', ud_token = ''tok'',
             ud_tokenExpirationDate = Present (DateText 50)\<rparr>),
          navigated = []\<rparr>"
proof -
  let ?d = "\<lparr>ud_email = ''a@b.c'', ud_id = ''u1'', ud_token = ''tok'',
        ud_tokenExpirationDate = Present (DateText 50)\<rparr>"
  have stored: "localStorage (new_AuthService (Some (JsonUserData ?d))) = Some (JsonUserData ?d)"
    by (simp add: new_AuthService_def)
  have date: "ud_tokenExpirationDate ?d = Present (DateText 50)" by simp
  have valid: "(10::int) \<le> 50" by simp
  have tok: "ud_token ?d \<noteq> []" by simp
  show ?thesis using autoLogin_valid [OF stored date valid tok]
    by (simp add: new_AuthService_def new_BehaviorSubject_def bs_next_def loadedUser_def)
qed

text \<open>
  C6, as stated: whatever the storage holds, also text that cannot be deserialized, the
  load returns rather than fails. \<^verbatim>\<open>autoLogin\<close> calls \<^verbatim>\<open>JSON.parse\<close> outside any
  \<^verbatim>\<open>try\<close>: on text that is not JSON the \<^verbatim>\<open>SyntaxError\<close> reaches the caller.
\<close>

theorem autoLogin_malformed_counterexample:
  "autoLogin 0 (new_AuthService (Some Malformed)) = Inl SyntaxError"
  by (simp add: autoLogin_def new_AuthService_def JSON_parse_def)

text \<open>
  C6, amended: \<^verbatim>\<open>autoLogin\<close> fails exactly when the stored text is not JSON, and then
  with the \<^verbatim>\<open>SyntaxError\<close> of \<^verbatim>\<open>JSON.parse\<close>; for every other content it returns,
  and for a missing item (or the stored text \<^verbatim>\<open>null\<close>) it returns with the state
  unchanged.
\<close>

theorem autoLogin_throws_iff:
  "(autoLogin now s = Inl SyntaxError) = (localStorage s = Some Malformed)
   \<and> (\<exists>s'. autoLogin now s = Inr s') = (localStorage s \<noteq> Some Malformed)
   \<and> (localStorage s = None \<or> localStorage s = Some JsonNull \<longrightarrow> autoLogin now s = Inr s)"
  by (auto simp: autoLogin_def JSON_parse_def Let_def split: option.splits storedText.splits)

theorem autoLogin_throws_iff_witness:
  "autoLogin 0 (new_AuthService None) = Inr (new_AuthService None)
   \<and> autoLogin 0 (new_AuthService (Some JsonNull)) = Inr (new_AuthService (Some JsonNull))
   \<and> autoLogin 0 (new_AuthService (Some Malformed)) = Inl SyntaxError"
  using autoLogin_throws_iff [of 0 "new_AuthService None"]
    autoLogin_throws_iff [of 0 "new_AuthService (Some JsonNull)"]
    autoLogin_throws_iff [of 0 "new_AuthService (Some Malformed)"]
  by (simp add: new_AuthService_def)

text \<open>
  C9: the item that \<^verbatim>\<open>handleAuthentication\<close> stores is the document of the user it has
  just emitted: the user that \<^verbatim>\<open>autoLogin\<close> builds from it has the same email, id,
  token and expiration date. Whether that user becomes the session of the restarted
  application is decided by the clock at the time of the load: it does exactly when the
  load is not later than the expiration date (and the token is not the empty string).
\<close>

theorem save_load_roundtrip:
  "\<exists>d. localStorage (handleAuthentication mail userId tok expiresIn now s)
           = Some (JsonUserData d)
      \<and> current (user (handleAuthentication mail userId tok expiresIn now s))
           = Some (loadedUser d)
      \<and> loadedUser d = \<lparr>email = mail, id' = userId, p_token = tok,
             p_tokenExpirationDate = Present (Date (now + expiresIn * 1000))\<rparr>
      \<and> (\<exists>s'. autoLogin now' (new_AuthService (Some (JsonUserData d))) = Inr s'
             \<and> current (user s')
                 = (if now' \<le> now + expiresIn * 1000 \<and> tok \<noteq> [] then Some (loadedUser d)
                    else None))"
  by (simp add: handleAuthentication_def autoLogout_def setTimeout_def JSON_stringify_def
      loadedUser_def Let_def bs_next_def autoLogin_def JSON_parse_def new_AuthService_def
      new_BehaviorSubject_def token_def truthy_def)

section \<open>Properties of the interceptor and of the guard\<close>

text \<open>
  C4, as stated: with a session whose credential is no longer valid, the request is
  handed on as it is. The interceptor tests only \<^verbatim>\<open>!user\<close>. Here the user logged in
  at 0 for one second, and the request is made at 2000, before the logout of the timeout
  has run: the token is \<^verbatim>\<open>null\<close>, and what is handed on is a clone (address 1) whose
  parameters are \<^verbatim>\<open>auth = null\<close>.
\<close>

theorem intercept_expired_counterexample:
  "token 2000 \<lparr>email = ''a@b.c'', id' = ''u1'', p_token = ''tok'',
             p_tokenExpirationDate = Present (Date 1000)\<rparr> = None
   \<and> intercept (handleAuthentication ''a@b.c'' ''u1'' ''tok'' 1 0 (new_AuthService None)) 2000
       [\<lparr>http_method = ''GET'', url = ''/recipes.json'', params = []\<rparr>] 0
     = Some (1, [\<lparr>http_method = ''GET'', url = ''/recipes.json'', params = []\<rparr>,
                 \<lparr>http_method = ''GET'', url = ''/recipes.json'',
                  params = [(''auth'', None)]\<rparr>])"
  by (simp add: intercept_def clone_def handleAuthentication_def autoLogout_def setTimeout_def
      new_AuthService_def new_BehaviorSubject_def bs_next_def token_def Let_def)

text \<open>
  C4, amended: the interceptor reads the session once. With no user, the request itself
  is handed on and nothing changes. With a user, valid or not, a new request is handed
  on: the original with its parameters replaced by the one parameter \<^verbatim>\<open>auth\<close>, whose
  value is the token of the user at that time (\<^verbatim>\<open>null\<close> when it is not valid); the
  original and every other request stay as they were.
\<close>

theorem intercept_result:
  assumes "req < length h"
  shows "(current (user s) = None \<longrightarrow> intercept s now h req = Some (req, h))
       \<and> (\<forall>u. current (user s) = Some u \<longrightarrow>
            (\<exists>h'. intercept s now h req = Some (length h, h')
               \<and> h' ! length h = (h ! req)\<lparr>params := [(''auth'', token now u)]\<rparr>
               \<and> take (length h) h' = h
               \<and> h' ! req = h ! req
               \<and> length h \<noteq> req))"
  using assms by (auto simp: intercept_def clone_def nth_append)

theorem intercept_result_witness:
  "intercept (new_AuthService None) 500
       [\<lparr>http_method = ''GET'', url = ''/recipes.json'', params = []\<rparr>] 0
     = Some (0, [\<lparr>http_method = ''GET'', url = ''/recipes.json'', params = []\<rparr>])
   \<and> (\<exists>h'. intercept (handleAuthentication ''a@b.c'' ''u1'' ''tok'' 1 0 (new_AuthService None))
            500 [\<lparr>http_method = ''GET'', url = ''/recipes.json'', params = []\<rparr>] 0
          = Some (1, h')
        \<and> h' ! 1 = \<lparr>http_method = ''GET'', url = ''/recipes.json'',
                     params = [(''auth'', Some ''tok'')]\<rparr>
        \<and> take 1 h' = [\<lparr>http_method = ''GET'', url = ''/recipes.json'', params = []\<rparr>])"
proof -
  let ?h = "[\<lparr>http_method = ''GET'', url = ''/recipes.json'', params = []\<rparr>]"
  let ?s = "handleAuthentication ''a@b.c'' ''u1'' ''tok'' 1 0 (new_AuthService None)"
  let ?u = "\<lparr>email = ''a@b.c'', id' = ''u1'', p_token = ''tok'',
             p_tokenExpirationDate = Present (Date 1000)\<rparr>"
  have alloc: "0 < length ?h" by simp
  have empty: "current (user (new_AuthService None)) = None"
    by (simp add: new_AuthService_def new_BehaviorSubject_def)
  have active: "current (user ?s) = Some ?u"
    by (simp add: handleAuthentication_def autoLogout_def setTimeout_def
        new_AuthService_def new_BehaviorSubject_def bs_next_def Let_def)
  have tok: "token 500 ?u = Some ''tok''" by (simp add: token_def)
  from intercept_result [OF alloc, of "new_AuthService None" 500] empty
  have first: "intercept (new_AuthService None) 500 ?h 0 = Some (0, ?h)" by simp
  from intercept_result [OF alloc, of ?s 500] active
  obtain h' where "intercept ?s 500 ?h 0 = Some (length ?h, h')"
    and "h' ! length ?h = (?h ! 0)\<lparr>params := [(''auth'', token 500 ?u)]\<rparr>"
    and "take (length ?h) h' = ?h"
    by blast
  then have "intercept ?s 500 ?h 0 = Some (1, h')
      \<and> h' ! 1 = \<lparr>http_method = ''GET'', url = ''/recipes.json'',
                   params = [(''auth'', Some ''tok'')]\<rparr>
      \<and> take 1 h' = ?h"
    using tok by simp
  then show ?thesis using first by blast
qed

text \<open>
  C5, as stated: the guard allows exactly a session that is active and valid. The guard
  tests only \<^verbatim>\<open>!!user\<close>. Here the user logged in at 0 for one second; at 2000, before
  the logout of the timeout has run, its token is \<^verbatim>\<open>null\<close> and the guard still
  answers \<^verbatim>\<open>true\<close>.
\<close>

theorem canActivate_expired_counterexample:
  "current (user (handleAuthentication ''a@b.c'' ''u1'' ''tok'' 1 0 (new_AuthService None)))
     = Some \<lparr>email = ''a@b.c'', id' = ''u1'', p_token = ''tok'',
             p_tokenExpirationDate = Present (Date 1000)\<rparr>
   \<and> token 2000 \<lparr>email = ''a@b.c'', id' = ''u1'', p_token = ''tok'',
             p_tokenExpirationDate = Present (Date 1000)\<rparr> = None
   \<and> canActivate (handleAuthentication ''a@b.c'' ''u1'' ''tok'' 1 0 (new_AuthService None))
     = Boolean True"
  by (simp add: canActivate_def handleAuthentication_def autoLogout_def setTimeout_def
      new_AuthService_def new_BehaviorSubject_def bs_next_def token_def Let_def)

text \<open>
  C5, amended: the guard reads the session once and answers \<^verbatim>\<open>true\<close> exactly when a
  user is present, whether its token is still valid or not; exactly when there is none
  it answers the \<^verbatim>\<open>UrlTree\<close> of \<^verbatim>\<open>['/auth']\<close>. It never answers \<^verbatim>\<open>false\<close>.
\<close>

theorem canActivate_result:
  "(canActivate s = Boolean True) = (current (user s) \<noteq> None)
   \<and> (canActivate s = UrlTree [''/auth'']) = (current (user s) = None)
   \<and> canActivate s \<noteq> Boolean False"
  by (simp add: canActivate_def)

end
